theory Spec2Isabelle
  imports Complex_Main
begin

section \<open>The record store\<close>

text \<open>
  The tables of \<^verbatim>\<open>db.js\<close> and the \<^verbatim>\<open>otp_sends\<close> table created by the server, each
  a list of rows in insertion (rowid) order. No table but \<^verbatim>\<open>users\<close> has a uniqueness
  constraint, so duplicates are possible and a list is the right container. The
  autoincrement keys of \<^verbatim>\<open>otp_sends\<close> and \<^verbatim>\<open>messages\<close> and the \<^verbatim>\<open>created_at\<close> columns are
  never read by the handlers modelled here; the position in the list stands for them.
  Timestamps are the integers \<^verbatim>\<open>Date.now()\<close> returns (milliseconds).
  Store operations are taken to succeed: the only failing capabilities modelled are the
  mail provider and the model stream.
\<close>

record user_row =
  u_id :: nat
  u_email :: string
  u_password :: string
  u_verified :: int

record otp_row =
  o_email :: string
  o_code :: string
  o_expires_at :: int

record send_row =
  s_email :: string
  s_ip :: string
  s_ts :: int

record chat_row =
  c_id :: nat
  c_user_id :: nat
  c_title :: string

text \<open>What SQLite stores in a column of \<^verbatim>\<open>INTEGER\<close> affinity when a text is bound to it: an
  integer or a real when the text reads as one, the text itself otherwise. A real stands
  for the value of the stored double.\<close>

datatype sql_value = Sql_integer int | Sql_real real | Sql_text string

record message_row =
  m_chat_id :: sql_value
  m_role :: string
  m_content :: string

record database =
  users :: "user_row list"
  otps :: "otp_row list"
  otp_sends :: "send_row list"
  chats :: "chat_row list"
  messages :: "message_row list"

text \<open>What a handler answers: \<^verbatim>\<open>res.json({ok: true})\<close>, \<^verbatim>\<open>res.status(n).json({error})\<close>,
  the 429 answer that also carries \<^verbatim>\<open>retryAfter\<close>, and a list of (role, content) rows.\<close>

type_synonym turn = "string \<times> string"

datatype reply =
    Ok_true
  | Error nat string
  | Error_retry nat string int
  | Rows "turn list"

text \<open>How an awaited external promise settles.\<close>

datatype outcome = Resolved | Rejected

text \<open>
  How the awaited \<^verbatim>\<open>resend.emails.send\<close> settles. The Resend client resolves to an object
  \<^verbatim>\<open>{data, error}\<close>: a mail the provider refuses arrives as a resolved value whose
  \<^verbatim>\<open>error\<close> is set (\<open>Mail_resolved (Some err)\<close>), an accepted one with \<^verbatim>\<open>error\<close> null
  (\<open>Mail_resolved None\<close>). The promise rejects (\<open>Mail_rejected\<close>) only when the call
  itself throws.
\<close>

datatype mail_outcome = Mail_resolved "string option" | Mail_rejected

section \<open>JavaScript helpers\<close>

text \<open>A request field is a string or absent; \<^verbatim>\<open>!v\<close> holds for an absent and for an empty
  string. \<open>js_truthy\<close> returns the string when the value is truthy.\<close>

definition js_truthy :: "string option \<Rightarrow> string option" where
  "js_truthy v = (case v of None \<Rightarrow> None | Some s \<Rightarrow> (if s = [] then None else Some s))"

text \<open>\<^verbatim>\<open>String.prototype.trim\<close> on a header value (one byte per character): the white space
  and line terminator characters below 256.\<close>

definition js_whitespace :: "char \<Rightarrow> bool" where
  "js_whitespace c = (c \<in> set [CHR 0x09, CHR 0x0A, CHR 0x0B, CHR 0x0C, CHR 0x0D, CHR 0x20, CHR 0xA0])"

definition trim :: "string \<Rightarrow> string" where
  "trim s = rev (dropWhile js_whitespace (rev (dropWhile js_whitespace s)))"

text \<open>\<^verbatim>\<open>xf.split(',').shift()\<close>: the text before the first comma.\<close>

definition split_shift :: "string \<Rightarrow> string" where
  "split_shift s = takeWhile (\<lambda>c. c \<noteq> CHR '','') s"

text \<open>\<^verbatim>\<open>(xf && xf.split(',').shift().trim()) || req.ip || 'unknown'\<close>\<close>

definition client_ip :: "string option \<Rightarrow> string option \<Rightarrow> string" where
  "client_ip xf req_ip =
     (case js_truthy (case js_truthy xf of None \<Rightarrow> None | Some h \<Rightarrow> Some (trim (split_shift h))) of
        Some ip \<Rightarrow> ip
      | None \<Rightarrow> (case js_truthy req_ip of Some ip \<Rightarrow> ip | None \<Rightarrow> ''unknown''))"

text \<open>\<^verbatim>\<open>Number.prototype.toString\<close> on an integer: its decimal digits.\<close>

definition digit_char :: "nat \<Rightarrow> char" where
  "digit_char d = ''0123456789'' ! d"

fun string_of_nat :: "nat \<Rightarrow> string" where
  "string_of_nat n = (if n < 10 then [digit_char n] else string_of_nat (n div 10) @ [digit_char (n mod 10)])"

definition js_toString :: "int \<Rightarrow> string" where
  "js_toString i = (if i < 0 then CHR ''-'' # string_of_nat (nat (- i)) else string_of_nat (nat i))"

section \<open>Issuing one-time codes: \<^verbatim>\<open>POST /api/send-otp\<close>\<close>

definition MAX_SENDS :: nat where
  "MAX_SENDS = 5"

definition WINDOW_MS :: int where
  "WINDOW_MS = 15 * 60 * 1000"

definition BLOCK_MS :: int where
  "BLOCK_MS = 15 * 60 * 1000"

text \<open>\<^verbatim>\<open>SELECT ts FROM otp_sends WHERE email=? AND ts>? ORDER BY ts DESC\<close>\<close>

definition select_recent_sends :: "database \<Rightarrow> string \<Rightarrow> int \<Rightarrow> int list" where
  "select_recent_sends db email windowStart =
     rev (sort (map s_ts (filter (\<lambda>r. s_email r = email \<and> s_ts r > windowStart) (otp_sends db))))"

text \<open>\<^verbatim>\<open>SELECT COUNT(1) AS c FROM otp_sends WHERE ip=? AND ts>?\<close>\<close>

definition count_recent_ip :: "database \<Rightarrow> string \<Rightarrow> int \<Rightarrow> nat" where
  "count_recent_ip db ip windowStart =
     length (filter (\<lambda>r. s_ip r = ip \<and> s_ts r > windowStart) (otp_sends db))"

text \<open>The per-destination gate (the \<^verbatim>\<open>if (recentSends.length >= MAX_SENDS)\<close> block):
  \<open>Some retryAfter\<close> when the request is answered 429 there, \<open>None\<close> when the handler
  goes on.\<close>

definition destination_gate :: "int list \<Rightarrow> int \<Rightarrow> int option" where
  "destination_gate recentSends nowTs =
     (if length recentSends \<ge> MAX_SENDS then
        (let lastSendTs = recentSends ! 0;
             blockedUntil = lastSendTs + BLOCK_MS
         in if blockedUntil > nowTs
            then Some \<lceil>real_of_int (blockedUntil - nowTs) / 1000\<rceil>
            else None)
      else None)"

text \<open>\<^verbatim>\<open>DELETE FROM otps WHERE email=?\<close>, and the two inserts.\<close>

definition delete_otps :: "database \<Rightarrow> string \<Rightarrow> database" where
  "delete_otps db email = db\<lparr>otps := filter (\<lambda>r. o_email r \<noteq> email) (otps db)\<rparr>"

definition insert_otp :: "database \<Rightarrow> string \<Rightarrow> string \<Rightarrow> int \<Rightarrow> database" where
  "insert_otp db email code expires =
     db\<lparr>otps := otps db @ [\<lparr>o_email = email, o_code = code, o_expires_at = expires\<rparr>]\<rparr>"

definition insert_otp_send :: "database \<Rightarrow> string \<Rightarrow> string \<Rightarrow> int \<Rightarrow> database" where
  "insert_otp_send db email ip ts =
     db\<lparr>otp_sends := otp_sends db @ [\<lparr>s_email = email, s_ip = ip, s_ts = ts\<rparr>]\<rparr>"

text \<open>
  The handler. Its inputs besides the store: the \<^verbatim>\<open>email\<close> field of the body, the
  \<^verbatim>\<open>x-forwarded-for\<close> header, \<^verbatim>\<open>req.ip\<close>, the value of \<^verbatim>\<open>Date.now()\<close>, the value of
  \<^verbatim>\<open>Math.random()\<close> (a real in [0, 1)), and the mail capability, which is given the
  recipient and the code (sender, subject and the HTML around the code are constants).
  The handler awaits the send and does not read what it resolves to. Every exception
  lands in the one \<^verbatim>\<open>catch\<close>, which answers 500; writes made before the exception stay.
\<close>

definition send_otp ::
  "string option \<Rightarrow> string option \<Rightarrow> string option \<Rightarrow> int \<Rightarrow> real \<Rightarrow>
   (string \<Rightarrow> string \<Rightarrow> mail_outcome) \<Rightarrow> database \<Rightarrow> reply \<times> database" where
  "send_otp body_email xf req_ip nowTs rnd resend_send db =
     (case js_truthy body_email of
        None \<Rightarrow> (Error 400 ''Email required'', db)
      | Some email \<Rightarrow>
          (let ip = client_ip xf req_ip;
               windowStart = nowTs - WINDOW_MS;
               recentSends = select_recent_sends db email windowStart
           in case destination_gate recentSends nowTs of
                Some retryAfter \<Rightarrow> (Error_retry 429 ''Too many OTP requests. Try later.'' retryAfter, db)
              | None \<Rightarrow>
                  if count_recent_ip db ip windowStart \<ge> MAX_SENDS * 3
                  then (Error 429 ''Too many requests from this IP'', db)
                  else
                    (let code = js_toString \<lfloor>100000 + rnd * 900000\<rfloor>;
                         expires = nowTs + 5 * 60 * 1000;
                         db1 = delete_otps db email;
                         db2 = insert_otp db1 email code expires;
                         db3 = insert_otp_send db2 email ip nowTs
                     in case resend_send email code of
                          Mail_resolved response \<Rightarrow> (Ok_true, db3)
                        | Mail_rejected \<Rightarrow> (Error 500 ''Gagal kirim OTP'', db3))))"

section \<open>Verifying a code: \<^verbatim>\<open>POST /api/verify-otp\<close>\<close>

text \<open>\<^verbatim>\<open>db.get("SELECT * FROM otps WHERE email=? AND code=?")\<close>: the first matching row.\<close>

definition get_otp :: "database \<Rightarrow> string \<Rightarrow> string \<Rightarrow> otp_row option" where
  "get_otp db email code = find (\<lambda>r. o_email r = email \<and> o_code r = code) (otps db)"

text \<open>\<^verbatim>\<open>UPDATE users SET verified=1 WHERE email=?\<close>\<close>

definition set_verified :: "database \<Rightarrow> string \<Rightarrow> database" where
  "set_verified db email =
     db\<lparr>users := map (\<lambda>u. if u_email u = email then u\<lparr>u_verified := 1\<rparr> else u) (users db)\<rparr>"

definition verify_otp ::
  "string option \<Rightarrow> string option \<Rightarrow> int \<Rightarrow> database \<Rightarrow> reply \<times> database" where
  "verify_otp body_email body_code nowTs db =
     (case js_truthy body_email of
        None \<Rightarrow> (Error 400 ''Email & code required'', db)
      | Some email \<Rightarrow>
          (case js_truthy body_code of
             None \<Rightarrow> (Error 400 ''Email & code required'', db)
           | Some code \<Rightarrow>
               (case get_otp db email code of
                  None \<Rightarrow> (Error 400 ''OTP invalid / expired'', db)
                | Some otp \<Rightarrow>
                    if o_expires_at otp < nowTs
                    then (Error 400 ''OTP invalid / expired'', db)
                    else (Ok_true, delete_otps (set_verified db email) email))))"

section \<open>Relaying a model stream: \<^verbatim>\<open>POST /api/chat-stream/:chatId\<close>\<close>

text \<open>
  The effects of one request, in the order they happen, are kept in \<open>events\<close> next to
  the store. \<open>full\<close> is the handler's local accumulator, which the replaced
  \<^verbatim>\<open>res.write\<close> closes over.
\<close>

datatype event =
    Db_insert_message message_row
  | Model_invoked "turn list"
  | Res_write string
  | Res_end
  | Console_error

record world =
  store :: database
  events :: "event list"
  full :: string

text \<open>The payload of the session token, which \<^verbatim>\<open>auth\<close> puts in \<^verbatim>\<open>req.user\<close>.\<close>

record jwt_payload =
  jp_id :: nat
  jp_email :: string

text \<open>
  \<^verbatim>\<open>INSERT INTO messages (chat_id, role, content) VALUES (?,?,?)\<close> and
  \<^verbatim>\<open>SELECT role, content FROM messages WHERE chat_id=?\<close>. The handlers bind the text of
  the route parameter. \<^verbatim>\<open>chat_id\<close> is an \<^verbatim>\<open>INTEGER\<close> column, so SQLite converts that text
  before it stores it and before it compares with it, in the same way both times: a text
  that reads as a number becomes that number (\<^verbatim>\<open>'1'\<close>, \<^verbatim>\<open>'01'\<close>, \<^verbatim>\<open>' 1'\<close> and \<^verbatim>\<open>'1.0'\<close> all
  become the integer 1), any other text stays text. The conversion is the parameter
  \<open>affinity\<close> of the functions below; its results are canonical (a fraction-free
  \<^verbatim>\<open>REAL\<close> within 64 bits is an \<^verbatim>\<open>INTEGER\<close>), so the comparison is equality of the
  converted values. The query has no \<^verbatim>\<open>ORDER BY\<close>; the rows come in rowid order.
\<close>

definition insert_message ::
  "(string \<Rightarrow> sql_value) \<Rightarrow> world \<Rightarrow> string \<Rightarrow> string \<Rightarrow> string \<Rightarrow> world" where
  "insert_message affinity w chatId role content =
     (let row = \<lparr>m_chat_id = affinity chatId, m_role = role, m_content = content\<rparr>
      in w\<lparr>store := (store w)\<lparr>messages := messages (store w) @ [row]\<rparr>,
           events := events w @ [Db_insert_message row]\<rparr>)"

definition select_messages :: "(string \<Rightarrow> sql_value) \<Rightarrow> database \<Rightarrow> string \<Rightarrow> turn list" where
  "select_messages affinity db chatId =
     map (\<lambda>r. (m_role r, m_content r)) (filter (\<lambda>r. m_chat_id r = affinity chatId) (messages db))"

text \<open>The response's own \<^verbatim>\<open>write\<close> and \<^verbatim>\<open>end\<close>, and the logging of the \<^verbatim>\<open>catch\<close> block.\<close>

definition originalWrite :: "world \<Rightarrow> string \<Rightarrow> world" where
  "originalWrite w chunk = w\<lparr>events := events w @ [Res_write chunk]\<rparr>"

definition res_end :: "world \<Rightarrow> world" where
  "res_end w = w\<lparr>events := events w @ [Res_end]\<rparr>"

definition console_error :: "world \<Rightarrow> world" where
  "console_error w = w\<lparr>events := events w @ [Console_error]\<rparr>"

text \<open>The replacement the handler installs:
  \<^verbatim>\<open>res.write = (chunk) => { full += chunk; originalWrite(chunk); }\<close>\<close>

definition tee_write :: "world \<Rightarrow> string \<Rightarrow> world" where
  "tee_write w chunk = originalWrite (w\<lparr>full := full w @ chunk\<rparr>) chunk"

text \<open>
  \<^verbatim>\<open>streamChat(res, messages)\<close>. A chunk of the stream carries
  \<^verbatim>\<open>chunk.choices[0]?.delta?.content\<close>, a string or nothing. The model capability maps the
  prompt to the chunks it delivers and to how the stream settles: \<open>Resolved\<close> when it
  ends, \<open>Rejected\<close> when creating or reading it throws after those chunks. The
  response's \<^verbatim>\<open>write\<close> is whatever the caller has installed.
\<close>

type_synonym chunk = "string option"

fun for_await :: "(world \<Rightarrow> string \<Rightarrow> world) \<Rightarrow> chunk list \<Rightarrow> world \<Rightarrow> world" where
  "for_await res_write [] w = w"
| "for_await res_write (c # cs) w =
     for_await res_write cs (case js_truthy c of Some token \<Rightarrow> res_write w token | None \<Rightarrow> w)"

definition streamChat ::
  "(world \<Rightarrow> string \<Rightarrow> world) \<Rightarrow> (turn list \<Rightarrow> chunk list \<times> outcome) \<Rightarrow> turn list \<Rightarrow>
   world \<Rightarrow> world \<times> outcome" where
  "streamChat res_write openai_create msgs w =
     (let (chunks, settled) = openai_create msgs;
          w1 = w\<lparr>events := events w @ [Model_invoked msgs]\<rparr>
      in (for_await res_write chunks w1, settled))"

definition chat_stream ::
  "(string \<Rightarrow> sql_value) \<Rightarrow> jwt_payload \<Rightarrow> string \<Rightarrow> string \<Rightarrow>
   (turn list \<Rightarrow> chunk list \<times> outcome) \<Rightarrow> database \<Rightarrow> world" where
  "chat_stream affinity req_user chatId message openai_create db =
     (let w0 = \<lparr>store = db, events = [], full = []\<rparr>;
          w1 = insert_message affinity w0 chatId ''user'' message;
          history = select_messages affinity (store w1) chatId;
          w2 = w1\<lparr>full := []\<rparr>;
          (w3, settled) = streamChat tee_write openai_create history w2
      in case settled of
           Resolved \<Rightarrow> res_end (insert_message affinity w3 chatId ''assistant'' (full w3))
         | Rejected \<Rightarrow> res_end (console_error w3))"

text \<open>\<^verbatim>\<open>GET /api/messages/:chatId\<close>\<close>

definition get_messages :: "(string \<Rightarrow> sql_value) \<Rightarrow> jwt_payload \<Rightarrow> string \<Rightarrow> database \<Rightarrow> reply" where
  "get_messages affinity req_user chatId db = Rows (select_messages affinity db chatId)"

text \<open>What the client has received: the written chunks, joined.\<close>

fun client_output :: "event list \<Rightarrow> string" where
  "client_output [] = []"
| "client_output (Res_write s # es) = s @ client_output es"
| "client_output (_ # es) = client_output es"

text \<open>The fragments of a stream: the text of its chunks, in arrival order.\<close>

fun fragments :: "chunk list \<Rightarrow> string list" where
  "fragments [] = []"
| "fragments (None # cs) = fragments cs"
| "fragments (Some s # cs) = s # fragments cs"

text \<open>The store of a fresh database file, after the \<^verbatim>\<open>CREATE TABLE IF NOT EXISTS\<close>
  statements.\<close>

definition empty_db :: database where
  "empty_db = \<lparr>users = [], otps = [], otp_sends = [], chats = [], messages = []\<rparr>"

text \<open>
  The stores the server can be in when requests are handled one after the other: the
  fresh store, and what a request leaves. The handlers not modelled here (register,
  login, create chat, list chats) and the two chat handlers write to \<^verbatim>\<open>users\<close>, \<^verbatim>\<open>chats\<close> and
  \<^verbatim>\<open>messages\<close> only; they are the last rule.
\<close>

inductive reachable :: "database \<Rightarrow> bool" where
  start: "reachable empty_db"
| send: "reachable db \<Longrightarrow> reachable (snd (send_otp body_email xf req_ip nowTs rnd resend_send db))"
| verify: "reachable db \<Longrightarrow> reachable (snd (verify_otp body_email body_code nowTs db))"
| other: "reachable db \<Longrightarrow> otps db' = otps db \<Longrightarrow> otp_sends db' = otp_sends db \<Longrightarrow> reachable db'"

section \<open>Concrete stores used in the examples\<close>

text \<open>
  An example of the conversion for the chat ids of the examples: a text of decimal digits
  becomes the integer it reads as, every other text stays text. SQLite does the same on
  digit strings that fit 64 bits (and converts signed, padded, real and longer literals
  as well).
\<close>

definition digit_of :: "char \<Rightarrow> nat option" where
  "digit_of c =
     map_of [(CHR ''0'', 0), (CHR ''1'', 1), (CHR ''2'', 2), (CHR ''3'', 3), (CHR ''4'', 4),
             (CHR ''5'', 5), (CHR ''6'', 6), (CHR ''7'', 7), (CHR ''8'', 8), (CHR ''9'', 9)] c"

fun digits_value :: "string \<Rightarrow> nat \<Rightarrow> nat option" where
  "digits_value [] n = Some n"
| "digits_value (c # cs) n =
     (case digit_of c of None \<Rightarrow> None | Some d \<Rightarrow> digits_value cs (10 * n + d))"

definition digits_affinity :: "string \<Rightarrow> sql_value" where
  "digits_affinity s =
     (if s = [] then Sql_text s
      else case digits_value s 0 of Some n \<Rightarrow> Sql_integer (int n) | None \<Rightarrow> Sql_text s)"

text \<open>A store with two conversations, owned by users 7 and 9, whose turns interleave.\<close>

definition two_chats_db :: database where
  "two_chats_db = empty_db\<lparr>
     chats := [\<lparr>c_id = 1, c_user_id = 7, c_title = ''New Chat''\<rparr>,
               \<lparr>c_id = 2, c_user_id = 9, c_title = ''New Chat''\<rparr>],
     messages := [\<lparr>m_chat_id = Sql_integer 1, m_role = ''user'', m_content = ''q1''\<rparr>,
                  \<lparr>m_chat_id = Sql_integer 2, m_role = ''user'', m_content = ''other''\<rparr>,
                  \<lparr>m_chat_id = Sql_integer 1, m_role = ''assistant'', m_content = ''a1''\<rparr>]\<rparr>"

text \<open>A request for a code for \<^verbatim>\<open>a@x.com\<close> at time \<open>t\<close>, through a proxy, with the random
  draw 1/2 and a mail provider that accepts the mail.\<close>

definition request_at :: "int \<Rightarrow> database \<Rightarrow> reply \<times> database" where
  "request_at t db =
     send_otp (Some ''a@x.com'') (Some ''203.0.113.7 , 10.0.0.1'') None t (1 / 2) (\<lambda>recipient code. Mail_resolved None) db"

text \<open>The store after five such requests within one minute, starting from the empty store.\<close>

definition five_requests_db :: database where
  "five_requests_db =
     snd (request_at 50000 (snd (request_at 40000 (snd (request_at 30000
       (snd (request_at 20000 (snd (request_at 10000 empty_db)))))))))"

text \<open>A store with one registered, unverified user, and the same store after one code was
  issued at time 10000.\<close>

definition registered_db :: database where
  "registered_db = empty_db\<lparr>users :=
     [\<lparr>u_id = 1, u_email = ''a@x.com'', u_password = ''hash'', u_verified = 0\<rparr>]\<rparr>"

definition issued_db :: database where
  "issued_db = snd (request_at 10000 registered_db)"

section \<open>Facts about the relay\<close>

lemma client_output_append: "client_output (xs @ ys) = client_output xs @ client_output ys"
  by (induction xs rule: client_output.induct) simp_all

lemma for_await_tee_store: "store (for_await tee_write cs w) = store w"
  by (induction cs arbitrary: w)
     (simp_all add: tee_write_def originalWrite_def js_truthy_def split: option.splits)

lemma for_await_tee_full: "full (for_await tee_write cs w) = full w @ concat (fragments cs)"
  by (induction cs arbitrary: w rule: fragments.induct)
     (simp_all add: tee_write_def originalWrite_def js_truthy_def)

lemma for_await_tee_events:
  "events (for_await tee_write cs w) = events w @ map Res_write (filter (\<lambda>s. s \<noteq> []) (fragments cs))"
  by (induction cs arbitrary: w rule: fragments.induct)
     (simp_all add: tee_write_def originalWrite_def js_truthy_def)

lemma client_output_writes: "client_output (map Res_write xs) = concat xs"
  by (induction xs) simp_all

lemma concat_filter_nonempty: "concat (filter (\<lambda>s. s \<noteq> []) xs) = concat xs"
  by (induction xs) simp_all

lemma select_messages_snoc:
  "select_messages affinity (db\<lparr>messages := messages db @ [r]\<rparr>) cid =
     select_messages affinity db cid @ (if m_chat_id r = affinity cid then [(m_role r, m_content r)] else [])"
  by (simp add: select_messages_def)

text \<open>The whole outcome of a request, by how the model stream settles.\<close>

lemma chat_stream_resolved:
  assumes "openai_create (select_messages affinity db chatId @ [(''user'', message)]) = (cs, Resolved)"
  shows "chat_stream affinity req_user chatId message openai_create db =
    \<lparr>store = db\<lparr>messages := messages db @
         [\<lparr>m_chat_id = affinity chatId, m_role = ''user'', m_content = message\<rparr>,
          \<lparr>m_chat_id = affinity chatId, m_role = ''assistant'', m_content = concat (fragments cs)\<rparr>]\<rparr>,
     events = [Db_insert_message \<lparr>m_chat_id = affinity chatId, m_role = ''user'', m_content = message\<rparr>,
               Model_invoked (select_messages affinity db chatId @ [(''user'', message)])]
              @ map Res_write (filter (\<lambda>s. s \<noteq> []) (fragments cs))
              @ [Db_insert_message \<lparr>m_chat_id = affinity chatId, m_role = ''assistant'', m_content = concat (fragments cs)\<rparr>,
                 Res_end],
     full = concat (fragments cs)\<rparr>"
  using assms
  by (simp add: chat_stream_def streamChat_def insert_message_def res_end_def Let_def
      select_messages_def for_await_tee_store for_await_tee_full for_await_tee_events)

lemma chat_stream_rejected:
  assumes "openai_create (select_messages affinity db chatId @ [(''user'', message)]) = (cs, Rejected)"
  shows "chat_stream affinity req_user chatId message openai_create db =
    \<lparr>store = db\<lparr>messages := messages db @
         [\<lparr>m_chat_id = affinity chatId, m_role = ''user'', m_content = message\<rparr>]\<rparr>,
     events = [Db_insert_message \<lparr>m_chat_id = affinity chatId, m_role = ''user'', m_content = message\<rparr>,
               Model_invoked (select_messages affinity db chatId @ [(''user'', message)])]
              @ map Res_write (filter (\<lambda>s. s \<noteq> []) (fragments cs))
              @ [Console_error, Res_end],
     full = concat (fragments cs)\<rparr>"
  using assms
  by (simp add: chat_stream_def streamChat_def insert_message_def res_end_def console_error_def Let_def
      select_messages_def for_await_tee_store for_await_tee_full for_await_tee_events)


lemma chat_stream_client_output:
  "client_output (events (chat_stream affinity req_user chatId message openai_create db)) =
     concat (fragments (fst (openai_create (select_messages affinity db chatId @ [(''user'', message)]))))"
proof -
  obtain cs settled where oc:
    "openai_create (select_messages affinity db chatId @ [(''user'', message)]) = (cs, settled)"
    by (cases "openai_create (select_messages affinity db chatId @ [(''user'', message)])")
  show ?thesis
  proof (cases settled)
    case Resolved
    with oc show ?thesis
      by (simp add: chat_stream_resolved client_output_append client_output_writes concat_filter_nonempty)
  next
    case Rejected
    with oc show ?thesis
      by (simp add: chat_stream_rejected client_output_append client_output_writes concat_filter_nonempty)
  qed
qed

lemma chat_stream_appends_user_turn:
  "take (Suc (length (messages db)))
     (messages (store (chat_stream affinity req_user chatId message openai_create db))) =
   messages db @ [\<lparr>m_chat_id = affinity chatId, m_role = ''user'', m_content = message\<rparr>]"
proof -
  obtain cs settled where oc:
    "openai_create (select_messages affinity db chatId @ [(''user'', message)]) = (cs, settled)"
    by (cases "openai_create (select_messages affinity db chatId @ [(''user'', message)])")
  show ?thesis
  proof (cases settled)
    case Resolved
    with oc show ?thesis by (simp add: chat_stream_resolved)
  next
    case Rejected
    with oc show ?thesis by (simp add: chat_stream_rejected)
  qed
qed

text \<open>The example conversion, on the ids the examples use.\<close>

lemma digits_affinity_1: "digits_affinity ''1'' = Sql_integer 1"
  by (simp add: digits_affinity_def digit_of_def)


lemma digits_affinity_2: "digits_affinity ''2'' = Sql_integer 2"
  by (simp add: digits_affinity_def digit_of_def)

section \<open>Claims about the streaming relay\<close>

text \<open>
  Claim C2. When the model stream completes normally with fragments \<open>f1..fn\<close> (\<open>n\<close> may
  be 0), the request appends to the conversation the user turn and then exactly one
  assistant turn whose content is \<open>f1 + ... + fn\<close> in arrival order, and what the client
  has received is the same concatenation. (Chunks without content and empty tokens are
  skipped by \<^verbatim>\<open>if (token)\<close>; they add nothing to either.)
\<close>

theorem completed_stream_is_persisted:
  assumes "openai_create (select_messages affinity db chatId @ [(''user'', message)]) = (cs, Resolved)"
  shows "messages (store (chat_stream affinity req_user chatId message openai_create db)) =
           messages db @
             [\<lparr>m_chat_id = affinity chatId, m_role = ''user'', m_content = message\<rparr>,
              \<lparr>m_chat_id = affinity chatId, m_role = ''assistant'', m_content = concat (fragments cs)\<rparr>]
         \<and> client_output (events (chat_stream affinity req_user chatId message openai_create db)) =
           concat (fragments cs)"
  using assms chat_stream_resolved [of openai_create affinity db chatId message cs req_user]
  by (simp add: client_output_append client_output_writes concat_filter_nonempty)

theorem completed_stream_is_persisted_witness:
  "messages (store (chat_stream digits_affinity \<lparr>jp_id = 1, jp_email = ''a@x.com''\<rparr> ''1'' ''hi''
       (\<lambda>h. ([None, Some ''Hel'', Some [], Some ''lo''], Resolved)) empty_db)) =
     [\<lparr>m_chat_id = Sql_integer 1, m_role = ''user'', m_content = ''hi''\<rparr>,
      \<lparr>m_chat_id = Sql_integer 1, m_role = ''assistant'', m_content = ''Hello''\<rparr>]
   \<and> client_output (events (chat_stream digits_affinity \<lparr>jp_id = 1, jp_email = ''a@x.com''\<rparr> ''1'' ''hi''
       (\<lambda>h. ([None, Some ''Hel'', Some [], Some ''lo''], Resolved)) empty_db)) = ''Hello''"
  using completed_stream_is_persisted
    [of "\<lambda>h. ([None, Some ''Hel'', Some [], Some ''lo''], Resolved)" digits_affinity empty_db "''1''" "''hi''"
        "[None, Some ''Hel'', Some [], Some ''lo'']" "\<lparr>jp_id = 1, jp_email = ''a@x.com''\<rparr>"]
  by (simp add: empty_db_def digits_affinity_1)

text \<open>
  Claim C1, as stated, fails: a stream that throws after the fragments \<open>f1\<close>, \<open>f2\<close>
  sends the handler to its \<^verbatim>\<open>catch\<close> block, which logs and closes the response; the
  insert of the assistant turn is skipped, and the history holds the user turn only.
\<close>

theorem failed_stream_not_persisted_counterexample:
  "messages (store (chat_stream digits_affinity \<lparr>jp_id = 1, jp_email = ''a@x.com''\<rparr> ''1'' ''hi''
       (\<lambda>h. ([Some ''f1'', Some ''f2''], Rejected)) empty_db)) =
     [\<lparr>m_chat_id = Sql_integer 1, m_role = ''user'', m_content = ''hi''\<rparr>]"
  by (simp add: chat_stream_rejected [where cs = "[Some ''f1'', Some ''f2'']"] empty_db_def
      select_messages_def digits_affinity_1)

text \<open>
  Claim C1, amended. When the model stream fails after emitting \<open>f1..fk\<close> (\<open>k\<close> may be 0),
  the user turn stays in the history and is the only row the request adds: no assistant
  turn is persisted. The client has received \<open>f1 + ... + fk\<close>, and the response is closed.
\<close>

theorem failed_stream_keeps_user_turn_only:
  assumes "openai_create (select_messages affinity db chatId @ [(''user'', message)]) = (cs, Rejected)"
  shows "messages (store (chat_stream affinity req_user chatId message openai_create db)) =
           messages db @ [\<lparr>m_chat_id = affinity chatId, m_role = ''user'', m_content = message\<rparr>]
         \<and> client_output (events (chat_stream affinity req_user chatId message openai_create db)) =
           concat (fragments cs)
         \<and> last (events (chat_stream affinity req_user chatId message openai_create db)) = Res_end"
  using assms chat_stream_rejected [of openai_create affinity db chatId message cs req_user]
  by (simp add: client_output_append client_output_writes concat_filter_nonempty)

theorem failed_stream_keeps_user_turn_only_witness:
  "messages (store (chat_stream digits_affinity \<lparr>jp_id = 1, jp_email = ''a@x.com''\<rparr> ''1'' ''hi''
       (\<lambda>h. ([Some ''f1'', Some ''f2''], Rejected)) empty_db)) =
     [\<lparr>m_chat_id = Sql_integer 1, m_role = ''user'', m_content = ''hi''\<rparr>]
   \<and> client_output (events (chat_stream digits_affinity \<lparr>jp_id = 1, jp_email = ''a@x.com''\<rparr> ''1'' ''hi''
       (\<lambda>h. ([Some ''f1'', Some ''f2''], Rejected)) empty_db)) = ''f1f2''
   \<and> last (events (chat_stream digits_affinity \<lparr>jp_id = 1, jp_email = ''a@x.com''\<rparr> ''1'' ''hi''
       (\<lambda>h. ([Some ''f1'', Some ''f2''], Rejected)) empty_db)) = Res_end"
  using failed_stream_keeps_user_turn_only
    [of "\<lambda>h. ([Some ''f1'', Some ''f2''], Rejected)" digits_affinity empty_db "''1''" "''hi''"
        "[Some ''f1'', Some ''f2'']" "\<lparr>jp_id = 1, jp_email = ''a@x.com''\<rparr>"]
  by (simp add: empty_db_def digits_affinity_1)



section \<open>Facts about the rate limit\<close>

text \<open>\<^verbatim>\<open>recentSends[0]\<close> of the descending query is the newest time stamp.\<close>

lemma last_sorted_Max:
  fixes ys :: "int list"
  assumes "sorted ys" "ys \<noteq> []"
  shows "last ys = Max (set ys)"
proof -
  have "\<forall>y \<in> set ys. y \<le> last ys"
  proof
    fix y assume "y \<in> set ys"
    then obtain i where i: "i < length ys" "ys ! i = y" by (auto simp: in_set_conv_nth)
    with assms have "ys ! i \<le> ys ! (length ys - 1)"
      by (intro sorted_nth_mono) auto
    with i assms show "y \<le> last ys" by (simp add: last_conv_nth)
  qed
  moreover have "last ys \<in> set ys" using assms by simp
  ultimately have "Max (set ys) = last ys" by (intro Max_eqI) auto
  then show ?thesis by simp
qed

lemma rev_sort_first:
  fixes xs :: "int list"
  assumes "xs \<noteq> []"
  shows "rev (sort xs) ! 0 = Max (set xs)"
proof -
  have ne: "sort xs \<noteq> []" using assms by (metis length_sort length_0_conv)
  then have "rev (sort xs) \<noteq> []" by simp
  then have "rev (sort xs) ! 0 = hd (rev (sort xs))" by (rule hd_conv_nth [symmetric])
  then have "rev (sort xs) ! 0 = last (sort xs)" by (simp only: hd_rev)
  then show ?thesis using ne last_sorted_Max [of "sort xs"] by simp
qed

lemma length_select_recent_sends:
  "length (select_recent_sends db e ws) =
     length (filter (\<lambda>r. s_email r = e \<and> ws < s_ts r) (otp_sends db))"
  by (simp add: select_recent_sends_def)

text \<open>The newest attempt inside the window is the newest attempt of the destination.\<close>

lemma newest_in_window:
  assumes "filter (\<lambda>r. s_email r = e \<and> ws < s_ts r) rows \<noteq> []"
  shows "Max (set (map s_ts (filter (\<lambda>r. s_email r = e \<and> ws < s_ts r) rows))) =
         Max (set (map s_ts (filter (\<lambda>r. s_email r = e) rows)))"
proof -
  let ?A = "set (map s_ts (filter (\<lambda>r. s_email r = e \<and> ws < s_ts r) rows))"
  let ?B = "set (map s_ts (filter (\<lambda>r. s_email r = e) rows))"
  have ne: "?A \<noteq> {}" using assms by (auto simp: filter_empty_conv)
  have sub: "?A \<subseteq> ?B" by auto
  have inA: "Max ?A \<in> ?A" using ne by (intro Max_in) auto
  then have gt: "ws < Max ?A" by auto
  have "\<forall>b \<in> ?B. b \<le> Max ?A"
  proof
    fix b assume b: "b \<in> ?B"
    show "b \<le> Max ?A"
    proof (cases "ws < b")
      case True
      with b have "b \<in> ?A" by auto
      then show ?thesis by (intro Max_ge) auto
    next
      case False
      with gt show ?thesis by simp
    qed
  qed
  moreover have "Max ?A \<in> ?B" using inA sub by blast
  ultimately show ?thesis by (intro Max_eqI [symmetric]) auto
qed

lemma select_recent_sends_first:
  assumes "filter (\<lambda>r. s_email r = e \<and> ws < s_ts r) (otp_sends db) \<noteq> []"
  shows "select_recent_sends db e ws ! 0 =
         Max (set (map s_ts (filter (\<lambda>r. s_email r = e) (otp_sends db))))"
  using assms newest_in_window [OF assms]
  by (simp add: select_recent_sends_def rev_sort_first)

lemma newest_after_window_start:
  assumes "filter (\<lambda>r. s_email r = e \<and> ws < s_ts r) rows \<noteq> []"
  shows "ws < Max (set (map s_ts (filter (\<lambda>r. s_email r = e) rows)))"
proof -
  let ?A = "set (map s_ts (filter (\<lambda>r. s_email r = e \<and> ws < s_ts r) rows))"
  have "?A \<noteq> {}" using assms by (auto simp: filter_empty_conv)
  then have "Max ?A \<in> ?A" by (intro Max_in) auto
  then have "ws < Max ?A" by auto
  then show ?thesis using newest_in_window [OF assms] by simp
qed

lemma newest_not_after:
  assumes "filter (\<lambda>r. s_email r = e) rows \<noteq> []"
    and "\<forall>r \<in> set rows. s_email r = e \<longrightarrow> s_ts r \<le> t"
  shows "Max (set (map s_ts (filter (\<lambda>r. s_email r = e) rows))) \<le> t"
  using assms by (subst Max_le_iff) (auto simp: filter_empty_conv)

lemma destination_gate_window:
  assumes "MAX_SENDS \<le> length (filter (\<lambda>r. s_email r = e \<and> nowTs - WINDOW_MS < s_ts r) (otp_sends db))"
  shows "destination_gate (select_recent_sends db e (nowTs - WINDOW_MS)) nowTs =
     (if Max (set (map s_ts (filter (\<lambda>r. s_email r = e) (otp_sends db)))) + 15 * 60 * 1000 > nowTs
      then Some \<lceil>real_of_int (Max (set (map s_ts (filter (\<lambda>r. s_email r = e) (otp_sends db))))
                   + 15 * 60 * 1000 - nowTs) / 1000\<rceil>
      else None)"
proof -
  have "filter (\<lambda>r. s_email r = e \<and> nowTs - WINDOW_MS < s_ts r) (otp_sends db) \<noteq> []"
    using assms by (auto simp: MAX_SENDS_def)
  then have "select_recent_sends db e (nowTs - WINDOW_MS) ! 0 =
         Max (set (map s_ts (filter (\<lambda>r. s_email r = e) (otp_sends db))))"
    by (rule select_recent_sends_first)
  then show ?thesis using assms
    by (simp add: destination_gate_def length_select_recent_sends BLOCK_MS_def Let_def)
qed

text \<open>An attempt inside the window is less than a window old; as \<open>BLOCK_MS\<close> equals
  \<open>WINDOW_MS\<close>, the newest attempt blocks whenever the window holds one. So once the count
  has reached \<open>MAX_SENDS\<close> the inner test \<^verbatim>\<open>blockedUntil > nowTs\<close> always holds.\<close>

lemma window_attempt_blocks:
  assumes "filter (\<lambda>r. s_email r = e \<and> nowTs - WINDOW_MS < s_ts r) (otp_sends db) \<noteq> []"
  shows "Max (set (map s_ts (filter (\<lambda>r. s_email r = e) (otp_sends db)))) + 15 * 60 * 1000 > nowTs"
  using newest_after_window_start [OF assms] by (simp add: WINDOW_MS_def)

text \<open>Once the newest attempt is a full window old, the window is empty and the gate lets
  the request through.\<close>

lemma destination_gate_opens:
  assumes "\<forall>r \<in> set (otp_sends db). s_email r = e \<longrightarrow> s_ts r + 15 * 60 * 1000 \<le> nowTs"
  shows "destination_gate (select_recent_sends db e (nowTs - WINDOW_MS)) nowTs = None"
proof -
  have "filter (\<lambda>r. s_email r = e \<and> nowTs - WINDOW_MS < s_ts r) (otp_sends db) = []"
    using assms by (auto simp: filter_empty_conv WINDOW_MS_def)
  then show ?thesis
    by (simp add: destination_gate_def length_select_recent_sends MAX_SENDS_def)
qed

text \<open>So the time test of the gate never lets a request through: the gate refuses exactly
  when the window holds \<open>MAX_SENDS\<close> attempts of the destination.\<close>

lemma destination_gate_is_window_count:
  "(destination_gate (select_recent_sends db e (nowTs - WINDOW_MS)) nowTs \<noteq> None) =
     (MAX_SENDS \<le> length (filter (\<lambda>r. s_email r = e \<and> nowTs - WINDOW_MS < s_ts r) (otp_sends db)))"
proof (cases "MAX_SENDS \<le> length (filter (\<lambda>r. s_email r = e \<and> nowTs - WINDOW_MS < s_ts r) (otp_sends db))")
  case True
  then have "filter (\<lambda>r. s_email r = e \<and> nowTs - WINDOW_MS < s_ts r) (otp_sends db) \<noteq> []"
    by (auto simp: MAX_SENDS_def)
  from window_attempt_blocks [OF this] destination_gate_window [OF True] True
  show ?thesis by simp
next
  case False
  then show ?thesis
    by (simp add: destination_gate_def length_select_recent_sends)
qed

text \<open>The handler, by what the gate says.\<close>

lemma send_otp_gate_blocked:
  assumes "e \<noteq> []"
    and "destination_gate (select_recent_sends db e (nowTs - WINDOW_MS)) nowTs = Some ra"
  shows "send_otp (Some e) xf req_ip nowTs rnd resend_send db =
           (Error_retry 429 ''Too many OTP requests. Try later.'' ra, db)"
  using assms by (simp add: send_otp_def js_truthy_def Let_def)

lemma send_otp_gate_passed:
  assumes "e \<noteq> []"
    and "destination_gate (select_recent_sends db e (nowTs - WINDOW_MS)) nowTs = None"
  shows "send_otp (Some e) xf req_ip nowTs rnd resend_send db =
     (if count_recent_ip db (client_ip xf req_ip) (nowTs - WINDOW_MS) \<ge> MAX_SENDS * 3
      then (Error 429 ''Too many requests from this IP'', db)
      else (case resend_send e (js_toString \<lfloor>100000 + rnd * 900000\<rfloor>) of
              Mail_resolved response \<Rightarrow> Ok_true | Mail_rejected \<Rightarrow> Error 500 ''Gagal kirim OTP'',
            db\<lparr>otps := filter (\<lambda>r. o_email r \<noteq> e) (otps db) @
                   [\<lparr>o_email = e, o_code = js_toString \<lfloor>100000 + rnd * 900000\<rfloor>,
                     o_expires_at = nowTs + 5 * 60 * 1000\<rparr>],
               otp_sends := otp_sends db @
                   [\<lparr>s_email = e, s_ip = client_ip xf req_ip, s_ts = nowTs\<rparr>]\<rparr>))"
  using assms
  by (simp add: send_otp_def js_truthy_def Let_def delete_otps_def insert_otp_def insert_otp_send_def
      split: mail_outcome.splits)

text \<open>Past the gates the attempt is recorded before the mail is sent, whatever the send
  comes to; the 500 is the answer when the send throws.\<close>

lemma attempt_charged_before_send:
  assumes "e \<noteq> []"
    and "destination_gate (select_recent_sends db e (nowTs - WINDOW_MS)) nowTs = None"
    and "count_recent_ip db (client_ip xf req_ip) (nowTs - WINDOW_MS) < MAX_SENDS * 3"
  shows "otp_sends (snd (send_otp (Some e) xf req_ip nowTs rnd resend_send db)) =
           otp_sends db @ [\<lparr>s_email = e, s_ip = client_ip xf req_ip, s_ts = nowTs\<rparr>]"
  using send_otp_gate_passed [OF assms(1,2), of xf req_ip rnd resend_send] assms(3)
  by simp

lemma send_throw_answers_500:
  assumes "e \<noteq> []"
    and "destination_gate (select_recent_sends db e (nowTs - WINDOW_MS)) nowTs = None"
    and "count_recent_ip db (client_ip xf req_ip) (nowTs - WINDOW_MS) < MAX_SENDS * 3"
    and "resend_send e (js_toString \<lfloor>100000 + rnd * 900000\<rfloor>) = Mail_rejected"
  shows "fst (send_otp (Some e) xf req_ip nowTs rnd resend_send db) = Error 500 ''Gagal kirim OTP''
       \<and> otp_sends (snd (send_otp (Some e) xf req_ip nowTs rnd resend_send db)) =
           otp_sends db @ [\<lparr>s_email = e, s_ip = client_ip xf req_ip, s_ts = nowTs\<rparr>]"
  using send_otp_gate_passed [OF assms(1,2), of xf req_ip rnd resend_send] assms(3,4)
  by simp

lemma string_of_nat_nonempty: "string_of_nat n \<noteq> []"
  by (subst string_of_nat.simps) simp

lemma js_toString_nonempty: "js_toString i \<noteq> []"
  by (simp add: js_toString_def string_of_nat_nonempty)

text \<open>A request that is answered \<^verbatim>\<open>{ok: true}\<close> has replaced the destination's code and
  recorded one attempt.\<close>

lemma send_otp_Ok_true:
  assumes "send_otp (Some e) xf req_ip nowTs rnd resend_send db = (Ok_true, db')"
  shows "e \<noteq> [] \<and>
     db' = db\<lparr>otps := filter (\<lambda>r. o_email r \<noteq> e) (otps db) @
                   [\<lparr>o_email = e, o_code = js_toString \<lfloor>100000 + rnd * 900000\<rfloor>,
                     o_expires_at = nowTs + 5 * 60 * 1000\<rparr>],
               otp_sends := otp_sends db @
                   [\<lparr>s_email = e, s_ip = client_ip xf req_ip, s_ts = nowTs\<rparr>]\<rparr>"
proof -
  have e: "e \<noteq> []" using assms by (auto simp: send_otp_def js_truthy_def)
  show ?thesis
  proof (cases "destination_gate (select_recent_sends db e (nowTs - WINDOW_MS)) nowTs")
    case None
    from send_otp_gate_passed [OF e None, of xf req_ip rnd resend_send] assms e
    show ?thesis by (auto split: if_splits mail_outcome.splits)
  next
    case (Some ra)
    from send_otp_gate_blocked [OF e Some, of xf req_ip rnd resend_send] assms
    show ?thesis by simp
  qed
qed

lemma send_otp_Ok_true_sends:
  assumes "send_otp (Some e) xf req_ip nowTs rnd resend_send db = (Ok_true, db')"
  shows "otp_sends db' = otp_sends db @ [\<lparr>s_email = e, s_ip = client_ip xf req_ip, s_ts = nowTs\<rparr>]"
  using send_otp_Ok_true [OF assms] by simp

text \<open>With five attempts of the destination inside the window the request is refused,
  whatever else the store holds; the hint is computed from the newest attempt.\<close>

lemma window_full_rate_limited:
  assumes "e \<noteq> []"
    and "5 \<le> length (filter (\<lambda>r. s_email r = e \<and> nowTs - 15 * 60 * 1000 < s_ts r) (otp_sends db))"
    and "Max (set (map s_ts (filter (\<lambda>r. s_email r = e) (otp_sends db)))) = newest"
  shows "send_otp (Some e) xf req_ip nowTs rnd resend_send db =
           (Error_retry 429 ''Too many OTP requests. Try later.''
              \<lceil>real_of_int (newest + 15 * 60 * 1000 - nowTs) / 1000\<rceil>, db)"
proof -
  have cnt: "MAX_SENDS \<le> length (filter (\<lambda>r. s_email r = e \<and> nowTs - WINDOW_MS < s_ts r) (otp_sends db))"
    using assms(2) by (simp add: MAX_SENDS_def WINDOW_MS_def)
  then have ne: "filter (\<lambda>r. s_email r = e \<and> nowTs - WINDOW_MS < s_ts r) (otp_sends db) \<noteq> []"
    by (auto simp: MAX_SENDS_def)
  have "newest + 15 * 60 * 1000 > nowTs"
    using window_attempt_blocks [OF ne] assms(3) by simp
  then have "destination_gate (select_recent_sends db e (nowTs - WINDOW_MS)) nowTs =
      Some \<lceil>real_of_int (newest + 15 * 60 * 1000 - nowTs) / 1000\<rceil>"
    using destination_gate_window [OF cnt] assms(3) by simp
  then show ?thesis by (rule send_otp_gate_blocked [OF assms(1)])
qed

lemma window_full_retry_bounds:
  assumes "e \<noteq> []"
    and "5 \<le> length (filter (\<lambda>r. s_email r = e \<and> nowTs - 15 * 60 * 1000 < s_ts r) (otp_sends db))"
    and "\<forall>r \<in> set (otp_sends db). s_email r = e \<longrightarrow> s_ts r \<le> nowTs"
  shows "send_otp (Some e) xf req_ip nowTs rnd resend_send db =
           (Error_retry 429 ''Too many OTP requests. Try later.''
              \<lceil>real_of_int (Max (set (map s_ts (filter (\<lambda>r. s_email r = e) (otp_sends db))))
                   + 15 * 60 * 1000 - nowTs) / 1000\<rceil>, db)
         \<and> 0 < \<lceil>real_of_int (Max (set (map s_ts (filter (\<lambda>r. s_email r = e) (otp_sends db))))
                   + 15 * 60 * 1000 - nowTs) / 1000\<rceil>
         \<and> \<lceil>real_of_int (Max (set (map s_ts (filter (\<lambda>r. s_email r = e) (otp_sends db))))
                   + 15 * 60 * 1000 - nowTs) / 1000\<rceil> \<le> 900"
proof -
  let ?newest = "Max (set (map s_ts (filter (\<lambda>r. s_email r = e) (otp_sends db))))"
  have cnt: "MAX_SENDS \<le> length (filter (\<lambda>r. s_email r = e \<and> nowTs - WINDOW_MS < s_ts r) (otp_sends db))"
    using assms(2) by (simp add: MAX_SENDS_def WINDOW_MS_def)
  then have ne: "filter (\<lambda>r. s_email r = e \<and> nowTs - WINDOW_MS < s_ts r) (otp_sends db) \<noteq> []"
    by (auto simp: MAX_SENDS_def)
  have blocks: "?newest + 15 * 60 * 1000 > nowTs"
    by (rule window_attempt_blocks [OF ne])
  have "filter (\<lambda>r. s_email r = e) (otp_sends db) \<noteq> []"
    using ne by (auto simp: filter_empty_conv)
  then have past: "?newest \<le> nowTs"
    using assms(3) by (rule newest_not_after)
  have gate: "destination_gate (select_recent_sends db e (nowTs - WINDOW_MS)) nowTs =
      Some \<lceil>real_of_int (?newest + 15 * 60 * 1000 - nowTs) / 1000\<rceil>"
    using destination_gate_window [OF cnt] blocks by simp
  have pos: "0 < \<lceil>real_of_int (?newest + 15 * 60 * 1000 - nowTs) / 1000\<rceil>"
    using blocks by (simp add: zero_less_ceiling)
  have "real_of_int (?newest + 15 * 60 * 1000 - nowTs) / 1000 \<le> 900"
    using past by simp
  then have le: "\<lceil>real_of_int (?newest + 15 * 60 * 1000 - nowTs) / 1000\<rceil> \<le> 900"
    by (simp add: ceiling_le_iff)
  show ?thesis
    using send_otp_gate_blocked [OF assms(1) gate] pos le by simp
qed

section \<open>Facts about verification\<close>

lemma verify_otp_present:
  assumes "e \<noteq> []" "c \<noteq> []"
  shows "verify_otp (Some e) (Some c) nowTs db =
     (case get_otp db e c of
        None \<Rightarrow> (Error 400 ''OTP invalid / expired'', db)
      | Some otp \<Rightarrow>
          if o_expires_at otp < nowTs then (Error 400 ''OTP invalid / expired'', db)
          else (Ok_true, delete_otps (set_verified db e) e))"
  using assms by (simp add: verify_otp_def js_truthy_def)

lemma verify_otp_not_Ok_without_row:
  assumes "get_otp db e c = None"
  shows "fst (verify_otp (Some e) (Some c) nowTs db) \<noteq> Ok_true"
  using assms by (simp add: verify_otp_def js_truthy_def)

lemma get_otp_unique:
  assumes "distinct (map o_email (otps db))"
    and "r \<in> set (otps db)" "o_email r = e" "o_code r = c"
  shows "get_otp db e c = Some r"
proof -
  from assms(2-4) have "\<exists>x. x \<in> set (otps db) \<and> o_email x = e \<and> o_code x = c" by blast
  then obtain r' where f: "get_otp db e c = Some r'"
    by (cases "get_otp db e c") (auto simp: get_otp_def find_None_iff)
  then have "r' \<in> set (otps db)" "o_email r' = e"
    by (auto simp: get_otp_def find_Some_iff)
  moreover have "inj_on o_email (set (otps db))"
    using assms(1) by (simp add: distinct_map)
  ultimately have "r' = r" using assms(2,3) by (auto dest: inj_onD)
  with f show ?thesis by simp
qed

lemma get_otp_Some_D:
  assumes "get_otp db e c = Some r"
  shows "r \<in> set (otps db) \<and> o_email r = e \<and> o_code r = c"
  using assms by (auto simp: get_otp_def find_Some_iff)

lemma get_otp_None_iff:
  "(get_otp db e c = None) = (\<forall>r \<in> set (otps db). \<not> (o_email r = e \<and> o_code r = c))"
  by (auto simp: get_otp_def find_None_iff)

lemma find_after_none: "find P xs = None \<Longrightarrow> find P (xs @ ys) = find P ys"
  by (induction xs) (auto split: if_splits)

lemma get_otp_issued:
  "get_otp (db\<lparr>otps := filter (\<lambda>r. o_email r \<noteq> e) (otps db) @
                   [\<lparr>o_email = e, o_code = code, o_expires_at = x\<rparr>], otp_sends := ss\<rparr>) e c =
     (if c = code then Some \<lparr>o_email = e, o_code = code, o_expires_at = x\<rparr> else None)"
proof -
  have "find (\<lambda>r. o_email r = e \<and> o_code r = c) (filter (\<lambda>r. o_email r \<noteq> e) (otps db)) = None"
    by (simp add: find_None_iff)
  then have "find (\<lambda>r. o_email r = e \<and> o_code r = c)
       (filter (\<lambda>r. o_email r \<noteq> e) (otps db) @ [\<lparr>o_email = e, o_code = code, o_expires_at = x\<rparr>]) =
     find (\<lambda>r. o_email r = e \<and> o_code r = c) [\<lparr>o_email = e, o_code = code, o_expires_at = x\<rparr>]"
    by (rule find_after_none)
  then show ?thesis
    by (simp add: get_otp_def)
qed

lemma users_after_verify:
  "u \<in> set (users (delete_otps (set_verified db e) e)) \<Longrightarrow> u_email u = e \<Longrightarrow> u_verified u = 1"
proof -
  assume a: "u \<in> set (users (delete_otps (set_verified db e) e))" and b: "u_email u = e"
  have "users (delete_otps (set_verified db e) e) =
     map (\<lambda>u. if u_email u = e then u\<lparr>u_verified := 1\<rparr> else u) (users db)"
    by (simp add: delete_otps_def set_verified_def)
  with a obtain v where v: "v \<in> set (users db)" "u = (if u_email v = e then v\<lparr>u_verified := 1\<rparr> else v)"
    by auto
  show ?thesis
  proof (cases "u_email v = e")
    case True
    with v show ?thesis by simp
  next
    case False
    with v b show ?thesis by simp
  qed
qed

lemma otps_after_verify:
  "otps (delete_otps (set_verified db e) e) = filter (\<lambda>r. o_email r \<noteq> e) (otps db)"
  by (simp add: delete_otps_def set_verified_def)

lemma no_row_after_verify: "get_otp (delete_otps (set_verified db e) e) e c = None"
  by (simp add: get_otp_None_iff otps_after_verify)

text \<open>Both handlers that write to \<^verbatim>\<open>otps\<close> keep at most one row per destination; the
  empty store has none.\<close>

lemma send_otp_keeps_one_per_destination:
  assumes "distinct (map o_email (otps db))"
  shows "distinct (map o_email (otps (snd (send_otp body_email xf req_ip nowTs rnd resend_send db))))"
  using assms
  by (auto simp: send_otp_def Let_def delete_otps_def insert_otp_def insert_otp_send_def
      distinct_map_filter split: option.splits mail_outcome.splits)

lemma verify_otp_keeps_one_per_destination:
  assumes "distinct (map o_email (otps db))"
  shows "distinct (map o_email (otps (snd (verify_otp body_email body_code nowTs db))))"
  using assms
  by (auto simp: verify_otp_def delete_otps_def set_verified_def distinct_map_filter
      split: option.splits)

text \<open>So every store the server reaches has at most one code per destination, and the
  destinations and codes on record are never empty.\<close>

lemma send_otp_rows:
  "set (otps (snd (send_otp body_email xf req_ip nowTs rnd resend_send db))) \<subseteq>
     set (otps db) \<union> {r. o_email r \<noteq> [] \<and> o_code r \<noteq> []}
   \<and> set (otp_sends (snd (send_otp body_email xf req_ip nowTs rnd resend_send db))) \<subseteq>
     set (otp_sends db) \<union> {r. s_email r \<noteq> []}"
  by (auto simp: send_otp_def Let_def delete_otps_def insert_otp_def insert_otp_send_def
      js_truthy_def js_toString_nonempty split: option.splits mail_outcome.splits if_splits)

lemma verify_otp_rows:
  "set (otps (snd (verify_otp body_email body_code nowTs db))) \<subseteq> set (otps db)
   \<and> otp_sends (snd (verify_otp body_email body_code nowTs db)) = otp_sends db"
  by (auto simp: verify_otp_def delete_otps_def set_verified_def split: option.splits)

lemma reachable_invariant:
  assumes "reachable db"
  shows "distinct (map o_email (otps db))
       \<and> (\<forall>r \<in> set (otps db). o_email r \<noteq> [] \<and> o_code r \<noteq> [])
       \<and> (\<forall>r \<in> set (otp_sends db). s_email r \<noteq> [])"
  using assms
proof (induction rule: reachable.induct)
  case start
  show ?case by (simp add: empty_db_def)
next
  case (send db body_email xf req_ip nowTs rnd resend_send)
  with send_otp_rows [of body_email xf req_ip nowTs rnd resend_send db]
    send_otp_keeps_one_per_destination [of db body_email xf req_ip nowTs rnd resend_send]
  show ?case by blast
next
  case (verify db body_email body_code nowTs)
  with verify_otp_rows [of body_email body_code nowTs db]
    verify_otp_keeps_one_per_destination [of db body_email body_code nowTs]
  show ?case by auto
next
  case (other db db')
  then show ?case by simp
qed

section \<open>The example stores, evaluated\<close>

lemma js_toString_550000: "js_toString 550000 = ''550000''"
  by (simp add: js_toString_def digit_char_def)

lemma js_toString_325000: "js_toString 325000 = ''325000''"
  by (simp add: js_toString_def digit_char_def)

lemma client_ip_ex: "client_ip (Some ''203.0.113.7 , 10.0.0.1'') None = ''203.0.113.7''"
  by (simp add: client_ip_def js_truthy_def trim_def split_shift_def js_whitespace_def)


lemma issued_db_value:
  "issued_db =
     \<lparr>users = [\<lparr>u_id = 1, u_email = ''a@x.com'', u_password = ''hash'', u_verified = 0\<rparr>],
      otps = [\<lparr>o_email = ''a@x.com'', o_code = ''550000'', o_expires_at = 310000\<rparr>],
      otp_sends = [\<lparr>s_email = ''a@x.com'', s_ip = ''203.0.113.7'', s_ts = 10000\<rparr>],
      chats = [], messages = []\<rparr>"
  by (simp add: issued_db_def registered_db_def request_at_def send_otp_def js_truthy_def
      js_toString_550000 client_ip_ex Let_def empty_db_def select_recent_sends_def
      destination_gate_def MAX_SENDS_def count_recent_ip_def delete_otps_def insert_otp_def
      insert_otp_send_def)

text \<open>A request of the example succeeds while fewer than five attempts of the destination
  and fewer than fifteen of the address are inside the window.\<close>

lemma request_at_ok:
  assumes "length (filter (\<lambda>r. s_email r = ''a@x.com'' \<and> t - WINDOW_MS < s_ts r) (otp_sends db)) < 5"
    and "length (filter (\<lambda>r. s_ip r = ''203.0.113.7'' \<and> t - WINDOW_MS < s_ts r) (otp_sends db)) < 15"
  shows "request_at t db = (Ok_true, snd (request_at t db))"
proof -
  have "destination_gate (select_recent_sends db ''a@x.com'' (t - WINDOW_MS)) t = None"
    using assms(1) by (simp add: destination_gate_def length_select_recent_sends MAX_SENDS_def)
  from send_otp_gate_passed [OF _ this, of "Some ''203.0.113.7 , 10.0.0.1''" None "1 / 2" "\<lambda>recipient code. Mail_resolved None"]
    assms(2)
  show ?thesis
    by (simp add: request_at_def client_ip_ex count_recent_ip_def MAX_SENDS_def)
qed

lemma request_at_sends:
  assumes "request_at t db = (Ok_true, d)"
  shows "otp_sends d = otp_sends db @ [\<lparr>s_email = ''a@x.com'', s_ip = ''203.0.113.7'', s_ts = t\<rparr>]"
  using send_otp_Ok_true [OF assms [unfolded request_at_def]]
  by (simp add: client_ip_ex)

section \<open>Claims about issuing and verifying codes\<close>

text \<open>
  Claim C3. Five requests for one destination succeed at times \<open>t1 \<le> ... \<le> t5\<close>, each on
  the store the one before left, and a sixth is made at \<open>t6 \<ge> t5\<close> with all five inside
  its trailing 15-minute window (\<open>t6 - 15 min < t1\<close>); the attempts recorded before the
  first are not stamped later than it. Then the sixth is answered 429 with
  \<open>retryAfter = ceil((t5 + 15 min - t6) / 1000)\<close>, which is positive and at most 900, and
  leaves the store as it was. (\<open>window_full_retry_bounds\<close> is the same fact for any store
  holding five attempts inside the window, however they got there.)
\<close>

theorem sixth_request_in_window_is_rate_limited:
  assumes "send_otp (Some e) xf1 ip1 t1 rnd1 mail1 db0 = (Ok_true, db1)"
    and "send_otp (Some e) xf2 ip2 t2 rnd2 mail2 db1 = (Ok_true, db2)"
    and "send_otp (Some e) xf3 ip3 t3 rnd3 mail3 db2 = (Ok_true, db3)"
    and "send_otp (Some e) xf4 ip4 t4 rnd4 mail4 db3 = (Ok_true, db4)"
    and "send_otp (Some e) xf5 ip5 t5 rnd5 mail5 db4 = (Ok_true, db5)"
    and "t1 \<le> t2" "t2 \<le> t3" "t3 \<le> t4" "t4 \<le> t5" "t5 \<le> t6"
    and "t6 - 15 * 60 * 1000 < t1"
    and "\<forall>r \<in> set (otp_sends db0). s_email r = e \<longrightarrow> s_ts r \<le> t1"
  shows "send_otp (Some e) xf6 ip6 t6 rnd6 mail6 db5 =
           (Error_retry 429 ''Too many OTP requests. Try later.''
              \<lceil>real_of_int (t5 + 15 * 60 * 1000 - t6) / 1000\<rceil>, db5)
         \<and> 0 < \<lceil>real_of_int (t5 + 15 * 60 * 1000 - t6) / 1000\<rceil>
         \<and> \<lceil>real_of_int (t5 + 15 * 60 * 1000 - t6) / 1000\<rceil> \<le> 900"
proof -
  have e: "e \<noteq> []" using send_otp_Ok_true [OF assms(1)] by simp
  let ?row = "\<lambda>xf ip t. \<lparr>s_email = e, s_ip = client_ip xf ip, s_ts = t\<rparr>"
  have sends: "otp_sends db5 = otp_sends db0 @
      [?row xf1 ip1 t1, ?row xf2 ip2 t2, ?row xf3 ip3 t3, ?row xf4 ip4 t4, ?row xf5 ip5 t5]"
    using send_otp_Ok_true_sends [OF assms(1)] send_otp_Ok_true_sends [OF assms(2)]
      send_otp_Ok_true_sends [OF assms(3)] send_otp_Ok_true_sends [OF assms(4)]
      send_otp_Ok_true_sends [OF assms(5)]
    by simp
  have cnt: "5 \<le> length (filter (\<lambda>r. s_email r = e \<and> t6 - 15 * 60 * 1000 < s_ts r) (otp_sends db5))"
    using assms(6-11) by (simp add: sends)
  have "Max (set (map s_ts (filter (\<lambda>r. s_email r = e) (otp_sends db5)))) = t5"
  proof (rule Max_eqI)
    show "finite (set (map s_ts (filter (\<lambda>r. s_email r = e) (otp_sends db5))))" by simp
    show "t5 \<in> set (map s_ts (filter (\<lambda>r. s_email r = e) (otp_sends db5)))"
      by (simp add: sends)
    fix y assume "y \<in> set (map s_ts (filter (\<lambda>r. s_email r = e) (otp_sends db5)))"
    then show "y \<le> t5"
      using assms(6-9,12) by (auto simp: sends)
  qed
  from window_full_rate_limited [OF e cnt this]
  have "send_otp (Some e) xf6 ip6 t6 rnd6 mail6 db5 =
           (Error_retry 429 ''Too many OTP requests. Try later.''
              \<lceil>real_of_int (t5 + 15 * 60 * 1000 - t6) / 1000\<rceil>, db5)" .
  moreover have "0 < \<lceil>real_of_int (t5 + 15 * 60 * 1000 - t6) / 1000\<rceil>"
    using assms(6-11) by (simp add: zero_less_ceiling)
  moreover have "real_of_int (t5 + 15 * 60 * 1000 - t6) / 1000 \<le> 900"
    using assms(10) by simp
  then have "\<lceil>real_of_int (t5 + 15 * 60 * 1000 - t6) / 1000\<rceil> \<le> 900"
    by (simp add: ceiling_le_iff)
  ultimately show ?thesis by simp
qed

theorem sixth_request_in_window_is_rate_limited_witness:
  "send_otp (Some ''a@x.com'') None (Some ''198.51.100.9'') 60000 0 (\<lambda>recipient code. Mail_resolved None)
      five_requests_db =
     (Error_retry 429 ''Too many OTP requests. Try later.'' 890, five_requests_db)"
proof -
  let ?d1 = "snd (request_at 10000 empty_db)"
  let ?d2 = "snd (request_at 20000 ?d1)"
  let ?d3 = "snd (request_at 30000 ?d2)"
  let ?d4 = "snd (request_at 40000 ?d3)"
  let ?d5 = "snd (request_at 50000 ?d4)"
  have r1: "request_at 10000 empty_db = (Ok_true, ?d1)"
    by (rule request_at_ok) (simp_all add: empty_db_def)
  have s1: "otp_sends ?d1 = [\<lparr>s_email = ''a@x.com'', s_ip = ''203.0.113.7'', s_ts = 10000\<rparr>]"
    using request_at_sends [OF r1] by (simp add: empty_db_def)
  have r2: "request_at 20000 ?d1 = (Ok_true, ?d2)"
    by (rule request_at_ok) (simp_all add: s1)
  have s2: "otp_sends ?d2 = otp_sends ?d1 @ [\<lparr>s_email = ''a@x.com'', s_ip = ''203.0.113.7'', s_ts = 20000\<rparr>]"
    by (rule request_at_sends [OF r2])
  have r3: "request_at 30000 ?d2 = (Ok_true, ?d3)"
    by (rule request_at_ok) (simp_all add: s1 s2)
  have s3: "otp_sends ?d3 = otp_sends ?d2 @ [\<lparr>s_email = ''a@x.com'', s_ip = ''203.0.113.7'', s_ts = 30000\<rparr>]"
    by (rule request_at_sends [OF r3])
  have r4: "request_at 40000 ?d3 = (Ok_true, ?d4)"
    by (rule request_at_ok) (simp_all add: s1 s2 s3)
  have s4: "otp_sends ?d4 = otp_sends ?d3 @ [\<lparr>s_email = ''a@x.com'', s_ip = ''203.0.113.7'', s_ts = 40000\<rparr>]"
    by (rule request_at_sends [OF r4])
  have r5: "request_at 50000 ?d4 = (Ok_true, ?d5)"
    by (rule request_at_ok) (simp_all add: s1 s2 s3 s4)
  from sixth_request_in_window_is_rate_limited
    [OF r1 [unfolded request_at_def] r2 [unfolded request_at_def] r3 [unfolded request_at_def]
        r4 [unfolded request_at_def] r5 [unfolded request_at_def],
     of 60000 None "Some ''198.51.100.9''" 0 "\<lambda>recipient code. Mail_resolved None"]
  show ?thesis
    unfolding five_requests_db_def request_at_def
    by (simp add: empty_db_def)
qed




text \<open>
  Claim C8. When the request passes both gates, the attempt (destination, client address,
  now) is appended to \<^verbatim>\<open>otp_sends\<close> before the mail is sent, so it stays whatever becomes of
  the send (\<open>attempt_charged_before_send\<close>); that half of the claim holds. The other half
  does not: the handler discards what the awaited send resolves to, so a mail the
  provider refuses (a resolved value with \<^verbatim>\<open>error\<close> set) is answered \<^verbatim>\<open>{ok: true}\<close>, with a
  code stored that was never delivered. The 500 of the \<^verbatim>\<open>catch\<close> block is reached only
  when the call throws (\<open>send_throw_answers_500\<close>).
\<close>

theorem provider_error_answered_ok:
  "send_otp (Some ''a@x.com'') (Some ''203.0.113.7 , 10.0.0.1'') None 20000 (1 / 4)
      (\<lambda>recipient code. Mail_resolved (Some ''validation_error'')) issued_db =
     (Ok_true,
      \<lparr>users = [\<lparr>u_id = 1, u_email = ''a@x.com'', u_password = ''hash'', u_verified = 0\<rparr>],
       otps = [\<lparr>o_email = ''a@x.com'', o_code = ''325000'', o_expires_at = 320000\<rparr>],
       otp_sends = [\<lparr>s_email = ''a@x.com'', s_ip = ''203.0.113.7'', s_ts = 10000\<rparr>,
                    \<lparr>s_email = ''a@x.com'', s_ip = ''203.0.113.7'', s_ts = 20000\<rparr>],
       chats = [], messages = []\<rparr>)"
proof -
  have "destination_gate (select_recent_sends issued_db ''a@x.com'' (20000 - WINDOW_MS)) 20000 = None"
    by (simp add: issued_db_value select_recent_sends_def destination_gate_def MAX_SENDS_def)
  from send_otp_gate_passed [OF _ this, of "Some ''203.0.113.7 , 10.0.0.1''" None "1 / 4"
      "\<lambda>recipient code. Mail_resolved (Some ''validation_error'')"]
  show ?thesis
    by (simp add: issued_db_value client_ip_ex count_recent_ip_def MAX_SENDS_def WINDOW_MS_def
        js_toString_325000)
qed

text \<open>
  Claim C10. When the request passes both gates and the mail capability rejects, nothing
  is rolled back: the destination's earlier rows are gone, the new code is stored and
  verifies at every time up to its expiry, and no other code verifies for the
  destination.
\<close>

theorem provider_failure_leaves_new_code:
  assumes "e \<noteq> []"
    and "destination_gate (select_recent_sends db e (nowTs - WINDOW_MS)) nowTs = None"
    and "count_recent_ip db (client_ip xf req_ip) (nowTs - WINDOW_MS) < MAX_SENDS * 3"
    and "resend_send e (js_toString \<lfloor>100000 + rnd * 900000\<rfloor>) = Mail_rejected"
  shows "fst (send_otp (Some e) xf req_ip nowTs rnd resend_send db) = Error 500 ''Gagal kirim OTP''
       \<and> otps (snd (send_otp (Some e) xf req_ip nowTs rnd resend_send db)) =
           filter (\<lambda>r. o_email r \<noteq> e) (otps db) @
             [\<lparr>o_email = e, o_code = js_toString \<lfloor>100000 + rnd * 900000\<rfloor>,
               o_expires_at = nowTs + 5 * 60 * 1000\<rparr>]
       \<and> (\<forall>t. t \<le> nowTs + 5 * 60 * 1000 \<longrightarrow>
             fst (verify_otp (Some e) (Some (js_toString \<lfloor>100000 + rnd * 900000\<rfloor>)) t
                   (snd (send_otp (Some e) xf req_ip nowTs rnd resend_send db))) = Ok_true)
       \<and> (\<forall>c t. c \<noteq> js_toString \<lfloor>100000 + rnd * 900000\<rfloor> \<longrightarrow>
             fst (verify_otp (Some e) (Some c) t
                   (snd (send_otp (Some e) xf req_ip nowTs rnd resend_send db))) \<noteq> Ok_true)"
proof -
  let ?code = "js_toString \<lfloor>100000 + rnd * 900000\<rfloor>"
  let ?db' = "db\<lparr>otps := filter (\<lambda>r. o_email r \<noteq> e) (otps db) @
                   [\<lparr>o_email = e, o_code = ?code, o_expires_at = nowTs + 5 * 60 * 1000\<rparr>],
               otp_sends := otp_sends db @
                   [\<lparr>s_email = e, s_ip = client_ip xf req_ip, s_ts = nowTs\<rparr>]\<rparr>"
  have r: "send_otp (Some e) xf req_ip nowTs rnd resend_send db = (Error 500 ''Gagal kirim OTP'', ?db')"
    using send_otp_gate_passed [OF assms(1,2), of xf req_ip rnd resend_send] assms(3,4) by simp
  have good: "fst (verify_otp (Some e) (Some ?code) t ?db') = Ok_true" if "t \<le> nowTs + 5 * 60 * 1000" for t
    using that verify_otp_present [OF assms(1) js_toString_nonempty, of "\<lfloor>100000 + rnd * 900000\<rfloor>" t ?db']
    by (simp add: get_otp_issued)
  have bad: "fst (verify_otp (Some e) (Some c) t ?db') \<noteq> Ok_true" if "c \<noteq> ?code" for c t
    using that by (intro verify_otp_not_Ok_without_row) (simp add: get_otp_issued)
  show ?thesis using r good bad by simp
qed

theorem provider_failure_leaves_new_code_witness:
  "otps (snd (send_otp (Some ''a@x.com'') (Some ''203.0.113.7 , 10.0.0.1'') None 20000 (1 / 4)
          (\<lambda>recipient code. Mail_rejected) issued_db)) =
     [\<lparr>o_email = ''a@x.com'', o_code = ''325000'', o_expires_at = 320000\<rparr>]
   \<and> fst (verify_otp (Some ''a@x.com'') (Some ''325000'') 320000
        (snd (send_otp (Some ''a@x.com'') (Some ''203.0.113.7 , 10.0.0.1'') None 20000 (1 / 4)
          (\<lambda>recipient code. Mail_rejected) issued_db))) = Ok_true
   \<and> fst (verify_otp (Some ''a@x.com'') (Some ''550000'') 30000
        (snd (send_otp (Some ''a@x.com'') (Some ''203.0.113.7 , 10.0.0.1'') None 20000 (1 / 4)
          (\<lambda>recipient code. Mail_rejected) issued_db))) \<noteq> Ok_true
   \<and> fst (verify_otp (Some ''a@x.com'') (Some ''550000'') 30000 issued_db) = Ok_true"
proof -
  have gate: "destination_gate (select_recent_sends issued_db ''a@x.com'' (20000 - WINDOW_MS)) 20000 = None"
    by (simp add: issued_db_value select_recent_sends_def destination_gate_def MAX_SENDS_def)
  have ip: "count_recent_ip issued_db (client_ip (Some ''203.0.113.7 , 10.0.0.1'') None) (20000 - WINDOW_MS)
      < MAX_SENDS * 3"
    by (simp add: issued_db_value client_ip_ex count_recent_ip_def MAX_SENDS_def WINDOW_MS_def)
  have code: "js_toString \<lfloor>100000 + (1 / 4) * 900000 :: real\<rfloor> = ''325000''"
    by (simp add: js_toString_325000)
  have old: "fst (verify_otp (Some ''a@x.com'') (Some ''550000'') 30000 issued_db) = Ok_true"
    by (simp add: issued_db_value verify_otp_def js_truthy_def get_otp_def)
  from provider_failure_leaves_new_code
    [of "''a@x.com''" issued_db 20000 "Some ''203.0.113.7 , 10.0.0.1''" None
        "\<lambda>recipient code. Mail_rejected" "1 / 4", OF _ gate ip]
  show ?thesis
    unfolding code using old by (simp add: issued_db_value)
qed

text \<open>
  Claim C4, as stated, fails: a request whose code is the empty string is refused by the
  presence check with its own error, although no stored request matches it.
\<close>

theorem verify_otp_missing_code_counterexample:
  "filter (\<lambda>r. o_email r = ''a@x.com'' \<and> o_code r = []) (otps issued_db) = []
   \<and> verify_otp (Some ''a@x.com'') (Some []) 20000 issued_db =
       (Error 400 ''Email & code required'', issued_db)"
  by (simp add: verify_otp_def js_truthy_def issued_db_value)

text \<open>
  Claim C4, amended. For a request that carries a non-empty destination and a non-empty
  code, on a store with at most one row per destination (every store the server reaches,
  by \<open>reachable_invariant\<close>): the answer is
  \<^verbatim>\<open>OTP invalid / expired\<close> exactly when no stored row matches destination and code, or
  the matching row has \<open>expires_at < now\<close>. Otherwise the answer is \<^verbatim>\<open>{ok: true}\<close>, every
  user with that email is marked verified, the destination has no stored code left, and
  a second call with the same code is answered \<^verbatim>\<open>OTP invalid / expired\<close> at any time.
\<close>

theorem verify_otp_single_use:
  assumes "e \<noteq> []" and "c \<noteq> []" and "distinct (map o_email (otps db))"
  shows "((verify_otp (Some e) (Some c) nowTs db = (Error 400 ''OTP invalid / expired'', db)) =
            ((\<forall>r \<in> set (otps db). \<not> (o_email r = e \<and> o_code r = c)) \<or>
             (\<exists>r \<in> set (otps db). o_email r = e \<and> o_code r = c \<and> o_expires_at r < nowTs)))
       \<and> (verify_otp (Some e) (Some c) nowTs db \<noteq> (Error 400 ''OTP invalid / expired'', db) \<longrightarrow>
            fst (verify_otp (Some e) (Some c) nowTs db) = Ok_true
          \<and> (\<forall>u \<in> set (users (snd (verify_otp (Some e) (Some c) nowTs db))).
                u_email u = e \<longrightarrow> u_verified u = 1)
          \<and> filter (\<lambda>r. o_email r = e) (otps (snd (verify_otp (Some e) (Some c) nowTs db))) = []
          \<and> (\<forall>t. verify_otp (Some e) (Some c) t (snd (verify_otp (Some e) (Some c) nowTs db)) =
                (Error 400 ''OTP invalid / expired'', snd (verify_otp (Some e) (Some c) nowTs db))))"
proof (cases "get_otp db e c")
  case None
  then have "verify_otp (Some e) (Some c) nowTs db = (Error 400 ''OTP invalid / expired'', db)"
    using verify_otp_present [OF assms(1,2)] by simp
  moreover have "\<forall>r \<in> set (otps db). \<not> (o_email r = e \<and> o_code r = c)"
    using None by (simp add: get_otp_None_iff)
  ultimately show ?thesis by simp
next
  case (Some r)
  then have r: "r \<in> set (otps db)" "o_email r = e" "o_code r = c"
    using get_otp_Some_D by blast+
  have only: "r' = r" if "r' \<in> set (otps db)" "o_email r' = e" "o_code r' = c" for r'
    using get_otp_unique [OF assms(3) that] Some by simp
  show ?thesis
  proof (cases "o_expires_at r < nowTs")
    case True
    then have "verify_otp (Some e) (Some c) nowTs db = (Error 400 ''OTP invalid / expired'', db)"
      using verify_otp_present [OF assms(1,2)] Some by simp
    moreover have "\<exists>r \<in> set (otps db). o_email r = e \<and> o_code r = c \<and> o_expires_at r < nowTs"
      using r True by blast
    ultimately show ?thesis by simp
  next
    case False
    let ?db' = "delete_otps (set_verified db e) e"
    have res: "verify_otp (Some e) (Some c) nowTs db = (Ok_true, ?db')"
      using verify_otp_present [OF assms(1,2)] Some False by simp
    have rhs: "\<not> ((\<forall>r \<in> set (otps db). \<not> (o_email r = e \<and> o_code r = c)) \<or>
             (\<exists>r \<in> set (otps db). o_email r = e \<and> o_code r = c \<and> o_expires_at r < nowTs))"
      using r False only by blast
    have users: "\<forall>u \<in> set (users ?db'). u_email u = e \<longrightarrow> u_verified u = 1"
      using users_after_verify by blast
    have gone: "filter (\<lambda>r. o_email r = e) (otps ?db') = []"
      by (simp add: otps_after_verify filter_empty_conv)
    have again: "verify_otp (Some e) (Some c) t ?db' = (Error 400 ''OTP invalid / expired'', ?db')" for t
      using verify_otp_present [OF assms(1,2), of t ?db'] by (simp add: no_row_after_verify)
    have first: "(verify_otp (Some e) (Some c) nowTs db = (Error 400 ''OTP invalid / expired'', db)) =
            ((\<forall>r \<in> set (otps db). \<not> (o_email r = e \<and> o_code r = c)) \<or>
             (\<exists>r \<in> set (otps db). o_email r = e \<and> o_code r = c \<and> o_expires_at r < nowTs))"
      using rhs by (simp add: res)
    have second: "fst (verify_otp (Some e) (Some c) nowTs db) = Ok_true
          \<and> (\<forall>u \<in> set (users (snd (verify_otp (Some e) (Some c) nowTs db))).
                u_email u = e \<longrightarrow> u_verified u = 1)
          \<and> filter (\<lambda>r. o_email r = e) (otps (snd (verify_otp (Some e) (Some c) nowTs db))) = []
          \<and> (\<forall>t. verify_otp (Some e) (Some c) t (snd (verify_otp (Some e) (Some c) nowTs db)) =
                (Error 400 ''OTP invalid / expired'', snd (verify_otp (Some e) (Some c) nowTs db)))"
      unfolding res fst_conv snd_conv using users gone again by blast
    show ?thesis using first second by blast
  qed
qed

theorem verify_otp_single_use_witness:
  "verify_otp (Some ''a@x.com'') (Some ''550000'') 20000 issued_db =
     (Ok_true,
      \<lparr>users = [\<lparr>u_id = 1, u_email = ''a@x.com'', u_password = ''hash'', u_verified = 1\<rparr>],
       otps = [],
       otp_sends = [\<lparr>s_email = ''a@x.com'', s_ip = ''203.0.113.7'', s_ts = 10000\<rparr>],
       chats = [], messages = []\<rparr>)
   \<and> fst (verify_otp (Some ''a@x.com'') (Some ''550000'') 20001
        (snd (verify_otp (Some ''a@x.com'') (Some ''550000'') 20000 issued_db))) =
       Error 400 ''OTP invalid / expired''
   \<and> verify_otp (Some ''a@x.com'') (Some ''550000'') 311000 issued_db =
       (Error 400 ''OTP invalid / expired'', issued_db)
   \<and> verify_otp (Some ''a@x.com'') (Some ''550001'') 20000 issued_db =
       (Error 400 ''OTP invalid / expired'', issued_db)"
proof -
  have d: "distinct (map o_email (otps issued_db))"
    by (simp add: issued_db_value)
  have now: "verify_otp (Some ''a@x.com'') (Some ''550000'') 20000 issued_db =
     (Ok_true,
      \<lparr>users = [\<lparr>u_id = 1, u_email = ''a@x.com'', u_password = ''hash'', u_verified = 1\<rparr>],
       otps = [],
       otp_sends = [\<lparr>s_email = ''a@x.com'', s_ip = ''203.0.113.7'', s_ts = 10000\<rparr>],
       chats = [], messages = []\<rparr>)"
    by (simp add: issued_db_value verify_otp_def js_truthy_def get_otp_def set_verified_def delete_otps_def)
  have late: "verify_otp (Some ''a@x.com'') (Some ''550000'') 311000 issued_db =
       (Error 400 ''OTP invalid / expired'', issued_db)"
    using verify_otp_single_use [of "''a@x.com''" "''550000''" issued_db 311000, OF _ _ d]
    by (simp add: issued_db_value)
  have wrong: "verify_otp (Some ''a@x.com'') (Some ''550001'') 20000 issued_db =
       (Error 400 ''OTP invalid / expired'', issued_db)"
    using verify_otp_single_use [of "''a@x.com''" "''550001''" issued_db 20000, OF _ _ d]
    by (simp add: issued_db_value)
  have again: "fst (verify_otp (Some ''a@x.com'') (Some ''550000'') 20001
        (snd (verify_otp (Some ''a@x.com'') (Some ''550000'') 20000 issued_db))) =
       Error 400 ''OTP invalid / expired''"
    using verify_otp_single_use [of "''a@x.com''" "''550000''" issued_db 20000, OF _ _ d] now
    by simp
  show ?thesis using now late wrong again by blast
qed

section \<open>Claim about conversation ownership\<close>

text \<open>
  Claim C9. For every caller, every store (whatever its \<^verbatim>\<open>chats\<close> table says about owners)
  and every chat id: the streaming handler appends the user turn to that conversation,
  invokes the model on that conversation's turns and streams the reply to the caller,
  and the listing handler returns the role and content of every stored turn of that
  conversation. None of this depends on the caller or on \<^verbatim>\<open>chats\<close>: with any other caller
  and any other \<^verbatim>\<open>chats\<close> table the effects and the stored turns are the same.
\<close>

theorem chat_ownership_not_checked:
  "take (Suc (length (messages db)))
     (messages (store (chat_stream affinity req_user chatId message openai_create db))) =
     messages db @ [\<lparr>m_chat_id = affinity chatId, m_role = ''user'', m_content = message\<rparr>]
   \<and> client_output (events (chat_stream affinity req_user chatId message openai_create db)) =
     concat (fragments (fst (openai_create
       (map (\<lambda>r. (m_role r, m_content r)) (filter (\<lambda>r. m_chat_id r = affinity chatId) (messages db))
        @ [(''user'', message)]))))
   \<and> get_messages affinity req_user chatId db =
     Rows (map (\<lambda>r. (m_role r, m_content r)) (filter (\<lambda>r. m_chat_id r = affinity chatId) (messages db)))
   \<and> events (chat_stream affinity req_user chatId message openai_create db) =
     events (chat_stream affinity other_user chatId message openai_create (db\<lparr>chats := cs\<rparr>))
   \<and> messages (store (chat_stream affinity req_user chatId message openai_create db)) =
     messages (store (chat_stream affinity other_user chatId message openai_create (db\<lparr>chats := cs\<rparr>)))
   \<and> get_messages affinity req_user chatId db = get_messages affinity other_user chatId (db\<lparr>chats := cs\<rparr>)"
proof -
  have sel: "select_messages affinity (db\<lparr>chats := cs\<rparr>) chatId = select_messages affinity db chatId"
    by (simp add: select_messages_def)
  have out: "client_output (events (chat_stream affinity req_user chatId message openai_create db)) =
     concat (fragments (fst (openai_create
       (map (\<lambda>r. (m_role r, m_content r)) (filter (\<lambda>r. m_chat_id r = affinity chatId) (messages db))
        @ [(''user'', message)]))))"
    using chat_stream_client_output [of affinity req_user chatId message openai_create db]
    by (simp add: select_messages_def)
  have listing: "get_messages affinity req_user chatId db =
     Rows (map (\<lambda>r. (m_role r, m_content r)) (filter (\<lambda>r. m_chat_id r = affinity chatId) (messages db)))"
    by (simp add: get_messages_def select_messages_def)
  have same_listing: "get_messages affinity req_user chatId db =
      get_messages affinity other_user chatId (db\<lparr>chats := cs\<rparr>)"
    by (simp add: get_messages_def sel)
  obtain chunks settled where oc:
    "openai_create (select_messages affinity db chatId @ [(''user'', message)]) = (chunks, settled)"
    by (cases "openai_create (select_messages affinity db chatId @ [(''user'', message)])")
  have same: "events (chat_stream affinity req_user chatId message openai_create db) =
     events (chat_stream affinity other_user chatId message openai_create (db\<lparr>chats := cs\<rparr>))
   \<and> messages (store (chat_stream affinity req_user chatId message openai_create db)) =
     messages (store (chat_stream affinity other_user chatId message openai_create (db\<lparr>chats := cs\<rparr>)))"
  proof (cases settled)
    case Resolved
    with oc have a: "openai_create (select_messages affinity db chatId @ [(''user'', message)]) = (chunks, Resolved)"
      by simp
    then have b: "openai_create (select_messages affinity (db\<lparr>chats := cs\<rparr>) chatId @ [(''user'', message)]) =
        (chunks, Resolved)"
      by (simp add: sel)
    show ?thesis
      using chat_stream_resolved [of openai_create affinity db chatId message chunks req_user, OF a]
        chat_stream_resolved [of openai_create affinity "db\<lparr>chats := cs\<rparr>" chatId message chunks other_user, OF b]
      by (simp add: sel)
  next
    case Rejected
    with oc have a: "openai_create (select_messages affinity db chatId @ [(''user'', message)]) = (chunks, Rejected)"
      by simp
    then have b: "openai_create (select_messages affinity (db\<lparr>chats := cs\<rparr>) chatId @ [(''user'', message)]) =
        (chunks, Rejected)"
      by (simp add: sel)
    show ?thesis
      using chat_stream_rejected [of openai_create affinity db chatId message chunks req_user, OF a]
        chat_stream_rejected [of openai_create affinity "db\<lparr>chats := cs\<rparr>" chatId message chunks other_user, OF b]
      by (simp add: sel)
  qed
  show ?thesis
    using chat_stream_appends_user_turn [of db affinity req_user chatId message openai_create]
      out listing same same_listing
    by blast
qed

theorem chat_ownership_not_checked_witness:
  "messages (store (chat_stream digits_affinity \<lparr>jp_id = 8, jp_email = ''b@x.com''\<rparr> ''1'' ''q2''
       (\<lambda>h. ([Some ''a'', Some ''2''], Resolved)) two_chats_db)) =
     messages two_chats_db @
       [\<lparr>m_chat_id = Sql_integer 1, m_role = ''user'', m_content = ''q2''\<rparr>,
        \<lparr>m_chat_id = Sql_integer 1, m_role = ''assistant'', m_content = ''a2''\<rparr>]
   \<and> client_output (events (chat_stream digits_affinity \<lparr>jp_id = 8, jp_email = ''b@x.com''\<rparr> ''1'' ''q2''
       (\<lambda>h. ([Some ''a'', Some ''2''], Resolved)) two_chats_db)) = ''a2''
   \<and> get_messages digits_affinity \<lparr>jp_id = 8, jp_email = ''b@x.com''\<rparr> ''1'' two_chats_db =
     Rows [(''user'', ''q1''), (''assistant'', ''a1'')]"
proof -
  have run: "messages (store (chat_stream digits_affinity \<lparr>jp_id = 8, jp_email = ''b@x.com''\<rparr> ''1'' ''q2''
       (\<lambda>h. ([Some ''a'', Some ''2''], Resolved)) two_chats_db)) =
     messages two_chats_db @
       [\<lparr>m_chat_id = Sql_integer 1, m_role = ''user'', m_content = ''q2''\<rparr>,
        \<lparr>m_chat_id = Sql_integer 1, m_role = ''assistant'', m_content = ''a2''\<rparr>]"
    by (simp add: chat_stream_resolved [where cs = "[Some ''a'', Some ''2'']"] digits_affinity_1)
  note fact = chat_ownership_not_checked
    [of two_chats_db digits_affinity "\<lparr>jp_id = 8, jp_email = ''b@x.com''\<rparr>" "''1''" "''q2''"
        "\<lambda>h. ([Some ''a'', Some ''2''], Resolved)"
        "\<lparr>jp_id = 7, jp_email = ''a@x.com''\<rparr>" "chats two_chats_db"]
  have out: "client_output (events (chat_stream digits_affinity \<lparr>jp_id = 8, jp_email = ''b@x.com''\<rparr> ''1'' ''q2''
       (\<lambda>h. ([Some ''a'', Some ''2''], Resolved)) two_chats_db)) = ''a2''"
    using fact [THEN conjunct2, THEN conjunct1] by simp
  have listing: "get_messages digits_affinity \<lparr>jp_id = 8, jp_email = ''b@x.com''\<rparr> ''1'' two_chats_db =
     Rows [(''user'', ''q1''), (''assistant'', ''a1'')]"
    using fact [THEN conjunct2, THEN conjunct2, THEN conjunct1]
    by (simp add: two_chats_db_def empty_db_def digits_affinity_1)
  show ?thesis using run out listing by blast
qed

end
